theory Spec2Isabelle
  imports Main
begin

section \<open>The alarm list of New\_alarm\_mutex.c\<close>

text \<open>
  The program keeps one singly linked list of alarms, \<open>alarm_list\<close>, protected by
  \<open>alarm_mutex\<close>. The main thread runs \<open>Start_Alarm\<close>, \<open>Change_Alarm\<close> and
  \<open>Cancel_Alarm\<close> on it, the alarm thread takes its first element. Every access happens
  between a lock and an unlock of the one mutex, so each function below is one critical
  section, and a run of the program is a sequence of them. The calls of
  \<open>pthread_mutex_lock\<close> and \<open>pthread_mutex_unlock\<close> are taken to return 0.

  The chain of \<open>link\<close> pointers from the list head is a HOL list, head first. The clock
  \<open>time(NULL)\<close> and the result of \<open>malloc\<close> are inputs of the function that reads them.
  The C \<open>int\<close> values (ids and seconds) are integers: the code only compares and stores
  them. A \<open>time_t\<close> is an integer as well; the one narrowing of a \<open>time_t\<close> to
  \<open>int\<close>, in the alarm thread, is written out.
\<close>

type_synonym time_t = int

text \<open>
  The field \<open>char *type\<close> holds an address, not a copy: \<open>Start_Alarm\<close> stores the
  caller's pointer. The characters it points to live in a store of strings, one per
  address; the capacity of those caller-owned buffers is not modelled.
\<close>

type_synonym addr = nat

record alarm_t =
  alarm_id :: int
  seconds :: int
  type :: addr
  time :: time_t
  message :: string

record state =
  alarm_list :: "alarm_t list"
  chars :: "addr \<Rightarrow> string"

text \<open>Behaviour the C standard leaves undefined is a fault, and ends the run.\<close>

datatype fault =
    Null_write
  | Message_overrun

text \<open>The lines the functions print.\<close>

datatype line =
    Starting_Alarm int
  | Changing_alarm int string int string
  | Could_not_find_alarm int
  | Canceling_alarm int
  | Alarm_does_not_exist int
  | Expired int string

text \<open>\<open>char message[64]\<close>, and \<open>sizeof(alarm->type)\<close>, the size of a pointer (LP64).\<close>

definition message_size :: nat where
  "message_size = 64"

definition sizeof_type :: nat where
  "sizeof_type = 8"

text \<open>
  \<open>strcpy(alarm->message, message)\<close> writes the characters of the source and a
  terminating NUL. More than 64 bytes run past the array, which ends the structure.
\<close>

definition strcpy_message :: "string \<Rightarrow> fault + string" where
  "strcpy_message src =
     (if length src + 1 \<le> message_size then Inr src else Inl Message_overrun)"

text \<open>\<open>s[n] = '\0'\<close> on a C string that fits its buffer: the string is cut at \<open>n\<close>.\<close>

definition terminate_at :: "nat \<Rightarrow> string \<Rightarrow> string" where
  "terminate_at n str = take n str"

subsection \<open>Start\_Alarm\<close>

text \<open>
  The scan of lines 163 to 174. It returns what \<open>alarm->link\<close> holds when the loop is
  left: the rest of the list from the first alarm whose id is at least the new one, or
  NULL (the empty list) when the loop runs off the end.
\<close>

fun link_scan :: "int \<Rightarrow> alarm_t list \<Rightarrow> alarm_t list" where
  "link_scan aid [] = []"
| "link_scan aid (next # rest) =
     (if alarm_id next \<ge> aid then next # rest else link_scan aid rest)"

text \<open>
  When \<open>malloc\<close> returns NULL the function prints with \<open>perror\<close> and goes on to line
  150, which writes through the null pointer. Line 175 assigns the new alarm to
  \<open>alarm_list\<close> itself, not to \<open>*last\<close>.
\<close>

definition Start_Alarm ::
  "bool \<Rightarrow> time_t \<Rightarrow> int \<Rightarrow> addr \<Rightarrow> int \<Rightarrow> string \<Rightarrow> state \<Rightarrow> fault + (line list \<times> state)" where
  "Start_Alarm malloc_ok now aid ty secs msg s =
     (if \<not> malloc_ok then Inl Null_write
      else case strcpy_message msg of
        Inl f \<Rightarrow> Inl f
      | Inr m \<Rightarrow>
          let alarm = \<lparr>alarm_id = aid, seconds = secs, type = ty,
                       time = now + secs, message = m\<rparr>
          in Inr ([Starting_Alarm aid],
                  s\<lparr>alarm_list := alarm # link_scan aid (alarm_list s)\<rparr>))"

subsection \<open>Change\_Alarm\<close>

text \<open>The search of lines 198 to 214: the position of the first alarm with the id.\<close>

fun find_alarm :: "int \<Rightarrow> alarm_t list \<Rightarrow> nat option" where
  "find_alarm aid [] = None"
| "find_alarm aid (alarm # link) =
     (if alarm_id alarm = aid then Some 0 else map_option Suc (find_alarm aid link))"

text \<open>
  The found alarm is updated where it is. \<open>strcpy(alarm->type, type)\<close> copies into the
  buffer the alarm points to (nothing changes when both are the same buffer), and line
  203 ends that buffer's string at index \<open>sizeof(alarm->type) - 1\<close>.
\<close>

definition Change_Alarm ::
  "time_t \<Rightarrow> int \<Rightarrow> addr \<Rightarrow> int \<Rightarrow> string \<Rightarrow> state \<Rightarrow> fault + (line list \<times> state)" where
  "Change_Alarm now aid ty secs msg s =
     (case find_alarm aid (alarm_list s) of
        None \<Rightarrow>
          Inr ([Changing_alarm aid (chars s ty) secs msg, Could_not_find_alarm aid], s)
      | Some i \<Rightarrow>
          let alarm = alarm_list s ! i;
              copied = (chars s)(type alarm := chars s ty);
              cut = copied(type alarm := terminate_at (sizeof_type - 1) (copied (type alarm)))
          in (case strcpy_message msg of
                Inl f \<Rightarrow> Inl f
              | Inr m \<Rightarrow>
                  Inr ([Changing_alarm aid (chars s ty) secs msg],
                       \<lparr>alarm_list = (alarm_list s)
                          [i := alarm\<lparr>seconds := secs, time := now + secs,
                                      message := terminate_at (message_size - 1) m\<rparr>],
                        chars = cut\<rparr>)))"

subsection \<open>Cancel\_Alarm\<close>

text \<open>The loop of lines 242 to 261: the list without the first alarm that has the id.\<close>

fun unlink :: "int \<Rightarrow> alarm_t list \<Rightarrow> alarm_t list option" where
  "unlink aid [] = None"
| "unlink aid (alarm # link) =
     (if alarm_id alarm = aid then Some link
      else map_option ((#) alarm) (unlink aid link))"

definition Cancel_Alarm :: "int \<Rightarrow> state \<Rightarrow> line list \<times> state" where
  "Cancel_Alarm aid s =
     (case unlink aid (alarm_list s) of
        None \<Rightarrow> ([Canceling_alarm aid, Alarm_does_not_exist aid], s)
      | Some l \<Rightarrow> ([Canceling_alarm aid], s\<lparr>alarm_list := l\<rparr>))"

subsection \<open>The alarm thread\<close>

text \<open>
  Line 78 stores a \<open>time_t\<close> difference in the \<open>int\<close> \<open>sleep_time\<close>: the value
  is kept when it fits 32 bits and wraps otherwise.
\<close>

definition int_of_time_t :: "time_t \<Rightarrow> int" where
  "int_of_time_t t = (t + 2147483648) mod 4294967296 - 2147483648"

text \<open>
  The critical section of one iteration (lines 57 to 95). It yields \<open>sleep_time\<close> and
  the local pointer \<open>alarm\<close> (\<open>None\<close> for NULL); a non-empty list loses its first
  alarm at line 73, before the clock is read.
\<close>

definition alarm_thread_locked :: "time_t \<Rightarrow> state \<Rightarrow> int \<times> alarm_t option \<times> state" where
  "alarm_thread_locked now s =
     (case alarm_list s of
        [] \<Rightarrow> (1, None, s)
      | alarm # link \<Rightarrow>
          (if time alarm \<le> now then 0 else int_of_time_t (time alarm - now),
           Some alarm,
           s\<lparr>alarm_list := link\<rparr>))"

text \<open>Lines 96 to 99: what the thread does with \<open>sleep_time\<close> once the mutex is free.\<close>

datatype wait =
    Sleep int
  | Sched_yield

definition wait_of :: "int \<Rightarrow> wait" where
  "wait_of sleep_time = (if sleep_time > 0 then Sleep sleep_time else Sched_yield)"

text \<open>One whole iteration: the wait, then the line printed for the alarm taken.\<close>

definition alarm_thread :: "time_t \<Rightarrow> state \<Rightarrow> wait \<times> line list \<times> state" where
  "alarm_thread now s =
     (case alarm_thread_locked now s of
        (sleep_time, alarm, s') \<Rightarrow>
          (wait_of sleep_time,
           (case alarm of None \<Rightarrow> [] | Some a \<Rightarrow> [Expired (seconds a) (message a)]),
           s'))"

subsection \<open>The numeric command of main\<close>

text \<open>
  The last branch of \<open>main\<close> (lines 384 to 405) is the one place that orders by
  \<open>time\<close>: the alarm goes before the first alarm whose time is not smaller, or at the
  end.
\<close>

fun insert_by_time :: "alarm_t \<Rightarrow> alarm_t list \<Rightarrow> alarm_t list" where
  "insert_by_time alarm [] = [alarm]"
| "insert_by_time alarm (next # rest) =
     (if time next \<ge> time alarm then alarm # next # rest
      else next # insert_by_time alarm rest)"

subsection \<open>Runs\<close>

text \<open>
  A run is the sequence of critical sections in the order the mutex grants them, each
  with the inputs it reads. It starts from \<open>alarm_list = NULL\<close>.
\<close>

datatype event =
    Start bool time_t int addr int string
  | Change time_t int addr int string
  | Cancel int
  | Wake time_t

fun step :: "event \<Rightarrow> state \<Rightarrow> fault + state" where
  "step (Start malloc_ok now aid ty secs msg) s =
     (case Start_Alarm malloc_ok now aid ty secs msg s of
        Inl f \<Rightarrow> Inl f | Inr (out, s') \<Rightarrow> Inr s')"
| "step (Change now aid ty secs msg) s =
     (case Change_Alarm now aid ty secs msg s of
        Inl f \<Rightarrow> Inl f | Inr (out, s') \<Rightarrow> Inr s')"
| "step (Cancel aid) s = Inr (snd (Cancel_Alarm aid s))"
| "step (Wake now) s = Inr (snd (snd (alarm_thread_locked now s)))"

fun run :: "event list \<Rightarrow> state \<Rightarrow> fault + state" where
  "run [] s = Inr s"
| "run (e # es) s = (case step e s of Inl f \<Rightarrow> Inl f | Inr s' \<Rightarrow> run es s')"

definition no_alarms :: "(addr \<Rightarrow> string) \<Rightarrow> state" where
  "no_alarms c = \<lparr>alarm_list = [], chars = c\<rparr>"

text \<open>The ids on the list, head first.\<close>

definition ids :: "state \<Rightarrow> int list" where
  "ids s = map alarm_id (alarm_list s)"

text \<open>
  A run in which every \<open>Start_Alarm\<close> is given an id that no alarm on the list has at
  that moment.
\<close>

fun fresh_starts :: "event list \<Rightarrow> state \<Rightarrow> bool" where
  "fresh_starts [] s = True"
| "fresh_starts (e # es) s =
     ((case e of Start malloc_ok now aid ty secs msg \<Rightarrow> aid \<notin> set (ids s) | _ \<Rightarrow> True)
      \<and> (case step e s of Inl f \<Rightarrow> True | Inr s' \<Rightarrow> fresh_starts es s'))"

text \<open>Inputs for the examples: a store with no characters, and three alarms.\<close>

definition no_chars :: "addr \<Rightarrow> string" where
  "no_chars p = []"

definition alarm1 :: alarm_t where
  "alarm1 = \<lparr>alarm_id = 1, seconds = 10, type = 0, time = 10, message = ''one''\<rparr>"

definition alarm2 :: alarm_t where
  "alarm2 = \<lparr>alarm_id = 2, seconds = 20, type = 0, time = 20, message = ''two''\<rparr>"

definition alarm3 :: alarm_t where
  "alarm3 = \<lparr>alarm_id = 3, seconds = 5, type = 0, time = 5, message = ''three''\<rparr>"

section \<open>Start\_Alarm puts the new alarm at the head\<close>

lemma link_scan_all_less:
  "\<forall>a \<in> set l. alarm_id a < aid \<Longrightarrow> link_scan aid l = []"
  by (induction l) auto

text \<open>
  Claim C10. A call of \<open>Start_Alarm\<close> that gets its memory and a message that fits makes
  the alarm it built the first element of the list, whatever the scan found; and when
  the new id is greater than every id on the list, the list holds the new alarm alone, so
  no earlier alarm can be reached from the head.
\<close>

theorem Start_Alarm_new_head:
  assumes "malloc_ok" and "length msg < message_size"
  shows "case Start_Alarm malloc_ok now aid ty secs msg s of
           Inl f \<Rightarrow> False
         | Inr (out, s') \<Rightarrow>
             hd (alarm_list s') =
               \<lparr>alarm_id = aid, seconds = secs, type = ty, time = now + secs, message = msg\<rparr>
             \<and> alarm_list s' \<noteq> []
             \<and> ((\<forall>a \<in> set (alarm_list s). alarm_id a < aid) \<longrightarrow>
                  alarm_list s' =
                    [\<lparr>alarm_id = aid, seconds = secs, type = ty, time = now + secs,
                      message = msg\<rparr>])"
  using assms
  by (simp add: Start_Alarm_def strcpy_message_def link_scan_all_less)

theorem Start_Alarm_new_head_witness:
  "length ''three'' < message_size
   \<and> alarm_id alarm1 < 3 \<and> alarm_id alarm2 < 3
   \<and> Start_Alarm True 0 3 0 5 ''three'' \<lparr>alarm_list = [alarm1, alarm2], chars = no_chars\<rparr>
       = Inr ([Starting_Alarm 3], \<lparr>alarm_list = [alarm3], chars = no_chars\<rparr>)"
proof -
  have fits: "length ''three'' < message_size"
    by (simp add: message_size_def)
  have less: "\<forall>a \<in> set [alarm1, alarm2]. alarm_id a < 3"
    by (simp add: alarm1_def alarm2_def)
  from Start_Alarm_new_head [OF TrueI fits, where now = 0 and aid = 3 and ty = 0
      and secs = 5 and s = "\<lparr>alarm_list = [alarm1, alarm2], chars = no_chars\<rparr>"] less
  have "alarm_list (snd (projr (Start_Alarm True 0 3 0 5 ''three''
          \<lparr>alarm_list = [alarm1, alarm2], chars = no_chars\<rparr>))) = [alarm3]"
    by (auto simp: alarm3_def split: sum.splits prod.splits)
  then show ?thesis
    using fits less
    by (simp add: Start_Alarm_def strcpy_message_def alarm1_def alarm2_def alarm3_def)
qed

section \<open>An id that is not on the list\<close>

lemma find_alarm_None:
  "find_alarm aid l = None \<longleftrightarrow> aid \<notin> set (map alarm_id l)"
  by (induction l) auto

lemma unlink_None:
  "unlink aid l = None \<longleftrightarrow> aid \<notin> set (map alarm_id l)"
  by (induction l) auto

text \<open>
  Claim C6. When no alarm on the list has the id, \<open>Change_Alarm\<close> prints that it
  could not find the alarm and \<open>Cancel_Alarm\<close> prints that the alarm does not exist,
  and each returns the state it was given: the list and the characters of every type
  buffer are the same.
\<close>

theorem unknown_id_no_change:
  assumes "aid \<notin> set (ids s)"
  shows "Change_Alarm now aid ty secs msg s =
           Inr ([Changing_alarm aid (chars s ty) secs msg, Could_not_find_alarm aid], s)
         \<and> Cancel_Alarm aid s = ([Canceling_alarm aid, Alarm_does_not_exist aid], s)"
proof -
  from assms have "find_alarm aid (alarm_list s) = None"
    by (simp add: find_alarm_None ids_def)
  moreover from assms have "unlink aid (alarm_list s) = None"
    by (simp add: unlink_None ids_def)
  ultimately show ?thesis
    by (simp add: Change_Alarm_def Cancel_Alarm_def)
qed

theorem unknown_id_no_change_witness:
  "7 \<notin> set (ids \<lparr>alarm_list = [alarm1, alarm2], chars = no_chars\<rparr>)
   \<and> Change_Alarm 0 7 0 30 ''new'' \<lparr>alarm_list = [alarm1, alarm2], chars = no_chars\<rparr> =
       Inr ([Changing_alarm 7 [] 30 ''new'', Could_not_find_alarm 7],
            \<lparr>alarm_list = [alarm1, alarm2], chars = no_chars\<rparr>)
   \<and> Cancel_Alarm 7 \<lparr>alarm_list = [alarm1, alarm2], chars = no_chars\<rparr> =
       ([Canceling_alarm 7, Alarm_does_not_exist 7],
        \<lparr>alarm_list = [alarm1, alarm2], chars = no_chars\<rparr>)"
proof -
  have absent: "7 \<notin> set (ids \<lparr>alarm_list = [alarm1, alarm2], chars = no_chars\<rparr>)"
    by (simp add: ids_def alarm1_def alarm2_def)
  from unknown_id_no_change [OF absent, where now = 0 and ty = 0 and secs = 30
      and msg = "''new''"] absent
  show ?thesis
    by (simp add: no_chars_def)
qed

section \<open>One iteration of the alarm thread\<close>

lemma int_of_time_t_fits:
  "- 2147483648 \<le> t \<Longrightarrow> t < 2147483648 \<Longrightarrow> int_of_time_t t = t"
  by (simp add: int_of_time_t_def)

text \<open>
  Claim C7, as the code has it. The wait of an iteration follows the first alarm of the
  list, which is the alarm of smallest id and need not be the next to expire: with an
  empty list \<open>sleep_time\<close> is 1 and the thread sleeps one second; with a first alarm
  whose time is after \<open>now\<close>, \<open>sleep_time\<close> is the difference of the two (a
  difference that an \<open>int\<close> holds) and the thread sleeps that long; with a first alarm
  whose time is \<open>now\<close> or earlier, \<open>sleep_time\<close> is 0 and the thread yields without
  sleeping.
\<close>

theorem alarm_thread_wait:
  "(alarm_list s = [] \<longrightarrow>
      fst (alarm_thread_locked now s) = 1 \<and> fst (alarm_thread now s) = Sleep 1)
   \<and> (alarm_list s = a # link \<and> now < time a \<and> time a - now < 2147483648 \<longrightarrow>
      fst (alarm_thread_locked now s) = time a - now
      \<and> fst (alarm_thread now s) = Sleep (time a - now))
   \<and> (alarm_list s = a # link \<and> time a \<le> now \<longrightarrow>
      fst (alarm_thread_locked now s) = 0 \<and> fst (alarm_thread now s) = Sched_yield)"
  by (simp add: alarm_thread_def alarm_thread_locked_def wait_of_def int_of_time_t_fits)

theorem alarm_thread_wait_witness:
  "fst (alarm_thread 3 (no_alarms no_chars)) = Sleep 1
   \<and> (3 < time alarm1 \<and> time alarm1 - 3 < 2147483648)
   \<and> fst (alarm_thread 3 \<lparr>alarm_list = [alarm1, alarm2], chars = no_chars\<rparr>) = Sleep 7
   \<and> time alarm1 \<le> 12
   \<and> fst (alarm_thread 12 \<lparr>alarm_list = [alarm1, alarm2], chars = no_chars\<rparr>) = Sched_yield
   \<and> (4 < time alarm2 \<and> time alarm2 - 4 < 2147483648)
   \<and> fst (alarm_thread 4 \<lparr>alarm_list = [alarm2, alarm3], chars = no_chars\<rparr>) = Sleep 16"
  using alarm_thread_wait [where s = "no_alarms no_chars" and now = 3]
    alarm_thread_wait [where s = "\<lparr>alarm_list = [alarm1, alarm2], chars = no_chars\<rparr>" and a = alarm1 and link = "[alarm2]" and now = 3]
    alarm_thread_wait [where s = "\<lparr>alarm_list = [alarm1, alarm2], chars = no_chars\<rparr>" and a = alarm1 and link = "[alarm2]" and now = 12]
    alarm_thread_wait [where s = "\<lparr>alarm_list = [alarm2, alarm3], chars = no_chars\<rparr>" and a = alarm2 and link = "[alarm3]" and now = 4]
  by (simp add: no_alarms_def alarm1_def alarm2_def)

text \<open>
  Claim C7 as the specification words it fails: after two \<open>Start_Alarm\<close> calls the
  list is the alarm due at 30 followed by the alarm due at 20. At time 0 the thread
  sleeps 30 seconds, not the 20 to the next expiry; at time 25, with the second alarm
  overdue, it sleeps 5 seconds and does not yield.
\<close>

theorem wait_follows_head_not_next_expiry:
  "run [Start True 0 2 0 20 ''two'', Start True 0 1 0 30 ''late''] (no_alarms no_chars) =
     Inr \<lparr>alarm_list =
            [\<lparr>alarm_id = 1, seconds = 30, type = 0, time = 30, message = ''late''\<rparr>, alarm2],
          chars = no_chars\<rparr>
   \<and> time alarm2 = 20
   \<and> fst (alarm_thread 0
        \<lparr>alarm_list =
            [\<lparr>alarm_id = 1, seconds = 30, type = 0, time = 30, message = ''late''\<rparr>, alarm2],
          chars = no_chars\<rparr>) = Sleep 30
   \<and> fst (alarm_thread 25
        \<lparr>alarm_list =
            [\<lparr>alarm_id = 1, seconds = 30, type = 0, time = 30, message = ''late''\<rparr>, alarm2],
          chars = no_chars\<rparr>) = Sleep 5"
  by (simp add: Start_Alarm_def strcpy_message_def message_size_def no_alarms_def alarm2_def
        alarm_thread_def alarm_thread_locked_def wait_of_def int_of_time_t_def)

text \<open>
  Claim C3, as the code has it. On a non-empty list the critical section of the alarm
  thread always takes the first alarm off the list and keeps it, due or not: the list
  becomes its tail. \<open>sleep_time\<close> is 0 when the alarm's time is \<open>now\<close> or earlier, and
  the difference of the two otherwise (one that an \<open>int\<close> holds); the line for the
  alarm is printed after the wait.
\<close>

theorem alarm_thread_takes_first:
  assumes "alarm_list s = a # link"
  shows "fst (snd (alarm_thread_locked now s)) = Some a
         \<and> snd (snd (alarm_thread_locked now s)) = s\<lparr>alarm_list := link\<rparr>
         \<and> (time a \<le> now \<longrightarrow> fst (alarm_thread_locked now s) = 0)
         \<and> (now < time a \<and> time a - now < 2147483648 \<longrightarrow>
              fst (alarm_thread_locked now s) = time a - now)
         \<and> alarm_thread now s =
             (wait_of (fst (alarm_thread_locked now s)), [Expired (seconds a) (message a)],
              s\<lparr>alarm_list := link\<rparr>)"
  using assms
  by (simp add: alarm_thread_def alarm_thread_locked_def int_of_time_t_fits)

theorem alarm_thread_takes_first_witness:
  "3 < time alarm1 \<and> time alarm1 - 3 < 2147483648
   \<and> alarm_thread_locked 3 \<lparr>alarm_list = [alarm1, alarm2], chars = no_chars\<rparr> =
       (7, Some alarm1, \<lparr>alarm_list = [alarm2], chars = no_chars\<rparr>)
   \<and> time alarm1 \<le> 12
   \<and> alarm_thread_locked 12 \<lparr>alarm_list = [alarm1, alarm2], chars = no_chars\<rparr> =
       (0, Some alarm1, \<lparr>alarm_list = [alarm2], chars = no_chars\<rparr>)"
  using alarm_thread_takes_first [where s = "\<lparr>alarm_list = [alarm1, alarm2], chars = no_chars\<rparr>"
      and a = alarm1 and link = "[alarm2]" and now = 3]
    alarm_thread_takes_first [where s = "\<lparr>alarm_list = [alarm1, alarm2], chars = no_chars\<rparr>"
      and a = alarm1 and link = "[alarm2]" and now = 12]
  by (simp add: alarm1_def prod_eq_iff)

text \<open>
  Claim C3 as the specification words it fails: at time 3 the first alarm is due at 10,
  and the list still loses it.
\<close>

theorem not_due_alarm_removed:
  "3 < time alarm1
   \<and> alarm_list (snd (snd (alarm_thread_locked 3
        \<lparr>alarm_list = [alarm1, alarm2], chars = no_chars\<rparr>))) = [alarm2]
   \<and> [alarm2] \<noteq> [alarm1, alarm2]"
  by (simp add: alarm_thread_locked_def alarm1_def)

section \<open>What the list functions keep\<close>

lemma ids_link_scan_subset:
  "set (map alarm_id (link_scan aid l)) \<subseteq> set (map alarm_id l)"
  by (induction l) auto

lemma sorted_link_scan:
  "sorted (map alarm_id l) \<Longrightarrow> sorted (aid # map alarm_id (link_scan aid l))"
  by (induction l) auto

lemma distinct_link_scan:
  "distinct (map alarm_id l) \<Longrightarrow> distinct (map alarm_id (link_scan aid l))"
  by (induction l) auto

lemma set_unlink_subset:
  "unlink aid l = Some l' \<Longrightarrow> set l' \<subseteq> set l"
  by (induction l arbitrary: l') (auto split: if_splits)

lemma ids_unlink_subset:
  "unlink aid l = Some l' \<Longrightarrow> set (map alarm_id l') \<subseteq> set (map alarm_id l)"
  using set_unlink_subset [of aid l l'] by auto

lemma sorted_unlink:
  "unlink aid l = Some l' \<Longrightarrow> sorted (map alarm_id l) \<Longrightarrow> sorted (map alarm_id l')"
proof (induction l arbitrary: l')
  case Nil
  then show ?case by simp
next
  case (Cons a l)
  show ?case
  proof (cases "alarm_id a = aid")
    case True
    with Cons.prems show ?thesis by simp
  next
    case False
    with Cons.prems obtain k where k: "unlink aid l = Some k" and l': "l' = a # k"
      by auto
    from Cons.prems(2) have "sorted (map alarm_id l)" by simp
    with Cons.IH k have "sorted (map alarm_id k)" by blast
    moreover from ids_unlink_subset [OF k] Cons.prems(2)
    have "\<forall>x \<in> set (map alarm_id k). alarm_id a \<le> x" by auto
    ultimately show ?thesis using l' by simp
  qed
qed

lemma distinct_unlink:
  "unlink aid l = Some l' \<Longrightarrow> distinct (map alarm_id l) \<Longrightarrow> distinct (map alarm_id l')"
proof (induction l arbitrary: l')
  case Nil
  then show ?case by simp
next
  case (Cons a l)
  show ?case
  proof (cases "alarm_id a = aid")
    case True
    with Cons.prems show ?thesis by simp
  next
    case False
    with Cons.prems obtain k where k: "unlink aid l = Some k" and l': "l' = a # k"
      by auto
    from Cons.prems(2) have "distinct (map alarm_id l)" by simp
    with Cons.IH k have "distinct (map alarm_id k)" by blast
    moreover from ids_unlink_subset [OF k] Cons.prems(2)
    have "alarm_id a \<notin> set (map alarm_id k)" by auto
    ultimately show ?thesis using l' by simp
  qed
qed

lemma find_alarm_Some:
  "find_alarm aid l = Some i \<Longrightarrow>
     i < length l \<and> alarm_id (l ! i) = aid \<and> (\<forall>j < i. alarm_id (l ! j) \<noteq> aid)"
proof (induction l arbitrary: i)
  case Nil
  then show ?case by simp
next
  case (Cons a l)
  show ?case
  proof (cases "alarm_id a = aid")
    case True
    with Cons.prems show ?thesis by simp
  next
    case False
    with Cons.prems obtain k where k: "find_alarm aid l = Some k" and i: "i = Suc k"
      by auto
    from Cons.IH [OF k] False i show ?thesis
      by (auto simp: nth_Cons split: nat.splits)
  qed
qed

lemma ids_update_same_id:
  "i < length l \<Longrightarrow> alarm_id b = alarm_id (l ! i) \<Longrightarrow>
     map alarm_id (l[i := b]) = map alarm_id l"
  by (simp add: map_update list_update_same_conv)

lemma Start_Alarm_ids:
  "Start_Alarm malloc_ok now aid ty secs msg s = Inr (out, s') \<Longrightarrow>
     ids s' = aid # map alarm_id (link_scan aid (alarm_list s))"
  by (auto simp: Start_Alarm_def ids_def split: if_splits sum.splits)

lemma Change_Alarm_ids:
  "Change_Alarm now aid ty secs msg s = Inr (out, s') \<Longrightarrow> ids s' = ids s"
  by (auto simp: Change_Alarm_def ids_def Let_def ids_update_same_id
           dest: find_alarm_Some split: option.splits sum.splits)

lemma Cancel_Alarm_ids:
  "ids (snd (Cancel_Alarm aid s)) = ids s
   \<or> (\<exists>l'. unlink aid (alarm_list s) = Some l' \<and> ids (snd (Cancel_Alarm aid s)) = map alarm_id l')"
  by (auto simp: Cancel_Alarm_def ids_def split: option.splits)

lemma alarm_thread_locked_ids:
  "ids (snd (snd (alarm_thread_locked now s))) = ids s
   \<or> ids (snd (snd (alarm_thread_locked now s))) = tl (ids s)"
  by (auto simp: alarm_thread_locked_def ids_def split: list.splits)

lemma step_sorted:
  assumes "step e s = Inr s'" and "sorted (ids s)"
  shows "sorted (ids s')"
proof (cases e)
  case (Start malloc_ok now aid ty secs msg)
  with assms(1) obtain out where
    "Start_Alarm malloc_ok now aid ty secs msg s = Inr (out, s')"
    by (auto split: sum.splits)
  from Start_Alarm_ids [OF this] sorted_link_scan [of "alarm_list s" aid] assms(2)
  show ?thesis by (simp add: ids_def)
next
  case (Change now aid ty secs msg)
  with assms(1) obtain out where
    "Change_Alarm now aid ty secs msg s = Inr (out, s')"
    by (auto split: sum.splits)
  from Change_Alarm_ids [OF this] assms(2) show ?thesis by simp
next
  case (Cancel aid)
  with assms(1) have s': "s' = snd (Cancel_Alarm aid s)" by simp
  from Cancel_Alarm_ids [of aid s] assms(2) show ?thesis
    unfolding s' by (auto simp: ids_def dest: sorted_unlink)
next
  case (Wake now)
  with assms(1) have s': "s' = snd (snd (alarm_thread_locked now s))" by simp
  from alarm_thread_locked_ids [of now s] assms(2) show ?thesis
    unfolding s' by (auto simp: sorted_tl)
qed

lemma run_sorted:
  "run es s = Inr s' \<Longrightarrow> sorted (ids s) \<Longrightarrow> sorted (ids s')"
proof (induction es arbitrary: s)
  case Nil
  then show ?case by simp
next
  case (Cons e es)
  from Cons.prems(1) obtain s1 where s1: "step e s = Inr s1" and r: "run es s1 = Inr s'"
    by (auto split: sum.splits)
  from step_sorted [OF s1 Cons.prems(2)] Cons.IH [OF r] show ?case by blast
qed

lemma set_insert_by_time:
  "set (insert_by_time a l) = insert a (set l)"
  by (induction l) auto

lemma sorted_insert_by_time:
  "sorted (map time l) \<Longrightarrow> sorted (map time (insert_by_time a l))"
  by (induction l) (auto simp: set_insert_by_time)

lemma step_distinct:
  assumes "step e s = Inr s'" and "distinct (ids s)"
    and "case e of Start malloc_ok now aid ty secs msg \<Rightarrow> aid \<notin> set (ids s) | _ \<Rightarrow> True"
  shows "distinct (ids s')"
proof (cases e)
  case (Start malloc_ok now aid ty secs msg)
  with assms(1) obtain out where
    "Start_Alarm malloc_ok now aid ty secs msg s = Inr (out, s')"
    by (auto split: sum.splits)
  from Start_Alarm_ids [OF this] distinct_link_scan [of "alarm_list s" aid]
    ids_link_scan_subset [of aid "alarm_list s"] assms(2,3) Start
  show ?thesis by (auto simp: ids_def)
next
  case (Change now aid ty secs msg)
  with assms(1) obtain out where
    "Change_Alarm now aid ty secs msg s = Inr (out, s')"
    by (auto split: sum.splits)
  from Change_Alarm_ids [OF this] assms(2) show ?thesis by simp
next
  case (Cancel aid)
  with assms(1) have s': "s' = snd (Cancel_Alarm aid s)" by simp
  from Cancel_Alarm_ids [of aid s] assms(2) show ?thesis
    unfolding s' by (auto simp: ids_def dest: distinct_unlink)
next
  case (Wake now)
  with assms(1) have s': "s' = snd (snd (alarm_thread_locked now s))" by simp
  from alarm_thread_locked_ids [of now s] assms(2) show ?thesis
    unfolding s' by (auto simp: distinct_tl)
qed

lemma run_distinct:
  "run es s = Inr s' \<Longrightarrow> fresh_starts es s \<Longrightarrow> distinct (ids s) \<Longrightarrow> distinct (ids s')"
proof (induction es arbitrary: s)
  case Nil
  then show ?case by simp
next
  case (Cons e es)
  from Cons.prems(1) obtain s1 where s1: "step e s = Inr s1" and r: "run es s1 = Inr s'"
    by (auto split: sum.splits)
  from Cons.prems(2) s1 have f: "fresh_starts es s1"
    and g: "case e of Start malloc_ok now aid ty secs msg \<Rightarrow> aid \<notin> set (ids s) | _ \<Rightarrow> True"
    by simp_all
  from step_distinct [OF s1 Cons.prems(3) g] have "distinct (ids s1)" .
  with Cons.IH [OF r f] show ?case by blast
qed

section \<open>Ids on the list\<close>

text \<open>
  Claim C1, as the code has it. \<open>Start_Alarm\<close> does not look for its id on the list,
  so uniqueness is the caller's: over every run from the empty list in which each
  \<open>Start_Alarm\<close> is given an id that no listed alarm has at that moment, no two
  alarms on the list share an id.
\<close>

theorem distinct_ids_when_starts_fresh:
  assumes "run es (no_alarms c) = Inr s" and "fresh_starts es (no_alarms c)"
  shows "distinct (ids s)"
  using run_distinct [OF assms] by (simp add: ids_def no_alarms_def)

theorem distinct_ids_when_starts_fresh_witness:
  "run [Start True 0 3 0 5 ''three'', Start True 0 2 0 20 ''two'',
        Start True 0 1 0 10 ''one'', Cancel 2]
       (no_alarms no_chars) = Inr \<lparr>alarm_list = [alarm1, alarm3], chars = no_chars\<rparr>
   \<and> fresh_starts [Start True 0 3 0 5 ''three'', Start True 0 2 0 20 ''two'',
        Start True 0 1 0 10 ''one'', Cancel 2]
       (no_alarms no_chars)
   \<and> distinct (ids \<lparr>alarm_list = [alarm1, alarm3], chars = no_chars\<rparr>)"
proof -
  have r: "run [Start True 0 3 0 5 ''three'', Start True 0 2 0 20 ''two'',
        Start True 0 1 0 10 ''one'', Cancel 2]
       (no_alarms no_chars) = Inr \<lparr>alarm_list = [alarm1, alarm3], chars = no_chars\<rparr>"
    by (simp add: Start_Alarm_def Cancel_Alarm_def strcpy_message_def message_size_def
          no_alarms_def alarm1_def alarm3_def)
  have f: "fresh_starts [Start True 0 3 0 5 ''three'', Start True 0 2 0 20 ''two'',
        Start True 0 1 0 10 ''one'', Cancel 2]
       (no_alarms no_chars)"
    by (simp add: Start_Alarm_def Cancel_Alarm_def strcpy_message_def message_size_def
          no_alarms_def ids_def)
  from distinct_ids_when_starts_fresh [OF r f] r f show ?thesis by simp
qed

text \<open>
  Claim C1 as the specification words it fails: two \<open>Start_Alarm\<close> calls with id 2
  leave two alarms with id 2 on the list.
\<close>

theorem same_id_twice_on_list:
  "run [Start True 0 2 0 20 ''two'', Start True 0 2 0 5 ''again''] (no_alarms no_chars) =
     Inr \<lparr>alarm_list =
            [\<lparr>alarm_id = 2, seconds = 5, type = 0, time = 5, message = ''again''\<rparr>, alarm2],
          chars = no_chars\<rparr>
   \<and> ids \<lparr>alarm_list =
            [\<lparr>alarm_id = 2, seconds = 5, type = 0, time = 5, message = ''again''\<rparr>, alarm2],
          chars = no_chars\<rparr> = [2, 2]"
  by (simp add: Start_Alarm_def strcpy_message_def message_size_def no_alarms_def
        alarm2_def ids_def)

text \<open>
  Claim C4, as the code has it. Two \<open>Start_Alarm\<close> calls in a row with the same id
  (memory granted, messages that fit) both succeed and print nothing but their first
  line; afterwards both alarms are on the list, the second call's alarm directly before
  the first call's, which has the first call's data.
\<close>

theorem Start_Alarm_twice:
  assumes "length msg < message_size" and "length msg' < message_size"
  shows "\<exists>s1 s2 pre post.
           Start_Alarm True now aid ty secs msg s = Inr ([Starting_Alarm aid], s1)
           \<and> Start_Alarm True now' aid ty' secs' msg' s1 = Inr ([Starting_Alarm aid], s2)
           \<and> alarm_list s2 =
               pre
               @ \<lparr>alarm_id = aid, seconds = secs', type = ty', time = now' + secs',
                  message = msg'\<rparr>
               # \<lparr>alarm_id = aid, seconds = secs, type = ty, time = now + secs,
                  message = msg\<rparr>
               # post"
proof -
  let ?first = "\<lparr>alarm_id = aid, seconds = secs, type = ty, time = now + secs,
                  message = msg\<rparr>"
  let ?second = "\<lparr>alarm_id = aid, seconds = secs', type = ty', time = now' + secs',
                  message = msg'\<rparr>"
  let ?rest = "link_scan aid (alarm_list s)"
  let ?s1 = "s\<lparr>alarm_list := ?first # ?rest\<rparr>"
  let ?s2 = "s\<lparr>alarm_list := ?second # ?first # ?rest\<rparr>"
  from assms(1) have one: "Start_Alarm True now aid ty secs msg s = Inr ([Starting_Alarm aid], ?s1)"
    by (simp add: Start_Alarm_def strcpy_message_def)
  from assms(2) have two: "Start_Alarm True now' aid ty' secs' msg' ?s1 = Inr ([Starting_Alarm aid], ?s2)"
    by (simp add: Start_Alarm_def strcpy_message_def)
  have "alarm_list ?s2 = [] @ ?second # ?first # ?rest"
    by simp
  with one two show ?thesis by blast
qed

theorem Start_Alarm_twice_witness:
  "length ''two'' < message_size \<and> length ''again'' < message_size
   \<and> (\<exists>s1 s2 pre post.
         Start_Alarm True 0 2 0 20 ''two'' \<lparr>alarm_list = [alarm1, alarm3], chars = no_chars\<rparr> =
           Inr ([Starting_Alarm 2], s1)
         \<and> Start_Alarm True 3 2 1 5 ''again'' s1 = Inr ([Starting_Alarm 2], s2)
         \<and> alarm_list s2 =
             pre @ \<lparr>alarm_id = 2, seconds = 5, type = 1, time = 8, message = ''again''\<rparr>
                 # alarm2 # post)"
proof -
  have a: "length ''two'' < message_size" and b: "length ''again'' < message_size"
    by (simp_all add: message_size_def)
  from Start_Alarm_twice [OF a b, where now = 0 and aid = 2 and ty = 0 and secs = 20
      and now' = 3 and ty' = 1 and secs' = 5
      and s = "\<lparr>alarm_list = [alarm1, alarm3], chars = no_chars\<rparr>"] a b
  show ?thesis by (simp add: alarm2_def)
qed

text \<open>
  Claim C4 as the specification words it fails: the second call with id 2 is not
  refused, and its alarm is on the list with the first one.
\<close>

theorem second_Start_Alarm_accepted:
  "Start_Alarm True 0 2 0 20 ''two'' (no_alarms no_chars) =
     Inr ([Starting_Alarm 2], \<lparr>alarm_list = [alarm2], chars = no_chars\<rparr>)
   \<and> Start_Alarm True 0 2 0 5 ''again'' \<lparr>alarm_list = [alarm2], chars = no_chars\<rparr> =
     Inr ([Starting_Alarm 2],
          \<lparr>alarm_list =
             [\<lparr>alarm_id = 2, seconds = 5, type = 0, time = 5, message = ''again''\<rparr>, alarm2],
           chars = no_chars\<rparr>)"
  by (simp add: Start_Alarm_def strcpy_message_def message_size_def no_alarms_def alarm2_def)

section \<open>The order of the list\<close>

text \<open>
  Claim C2, as the code has it. In every state that a run of \<open>Start_Alarm\<close>,
  \<open>Change_Alarm\<close>, \<open>Cancel_Alarm\<close> and alarm thread iterations reaches from the empty
  list, the alarms are in ascending order of id, equal ids allowed. Order by time is
  kept by the numeric command of \<open>main\<close> alone: its insertion into a list sorted by
  time gives a list sorted by time.
\<close>

theorem run_keeps_id_order:
  "(run es (no_alarms c) = Inr s \<longrightarrow> sorted (ids s))
   \<and> (sorted (map time l) \<longrightarrow> sorted (map time (insert_by_time a l)))"
  using run_sorted [of es "no_alarms c" s] sorted_insert_by_time [of l a]
  by (simp add: ids_def no_alarms_def)

theorem run_keeps_id_order_witness:
  "run [Start True 0 2 0 20 ''two'', Start True 0 1 0 10 ''one'']
       (no_alarms no_chars) = Inr \<lparr>alarm_list = [alarm1, alarm2], chars = no_chars\<rparr>
   \<and> sorted (ids \<lparr>alarm_list = [alarm1, alarm2], chars = no_chars\<rparr>)
   \<and> sorted (map time [alarm3, alarm2])
   \<and> sorted (map time (insert_by_time alarm1 [alarm3, alarm2]))"
proof -
  have r: "run [Start True 0 2 0 20 ''two'', Start True 0 1 0 10 ''one'']
       (no_alarms no_chars) = Inr \<lparr>alarm_list = [alarm1, alarm2], chars = no_chars\<rparr>"
    by (simp add: Start_Alarm_def strcpy_message_def message_size_def
          no_alarms_def alarm1_def alarm2_def)
  have t: "sorted (map time [alarm3, alarm2])"
    by (simp add: alarm2_def alarm3_def)
  from run_keeps_id_order [where es = "[Start True 0 2 0 20 ''two'', Start True 0 1 0 10 ''one'']"
      and c = no_chars and s = "\<lparr>alarm_list = [alarm1, alarm2], chars = no_chars\<rparr>"
      and l = "[alarm3, alarm2]" and a = alarm1] r t
  show ?thesis by simp
qed

text \<open>
  Claim C2 as the specification words it fails: after two \<open>Start_Alarm\<close> calls the
  alarm due at 30 stands before the alarm due at 20.
\<close>

theorem id_order_is_not_expiry_order:
  "run [Start True 0 2 0 20 ''two'', Start True 0 1 0 30 ''late''] (no_alarms no_chars) =
     Inr \<lparr>alarm_list =
            [\<lparr>alarm_id = 1, seconds = 30, type = 0, time = 30, message = ''late''\<rparr>, alarm2],
          chars = no_chars\<rparr>
   \<and> \<not> sorted (map time
          [\<lparr>alarm_id = 1, seconds = 30, type = 0, time = 30, message = ''late''\<rparr>, alarm2])"
  by (simp add: Start_Alarm_def strcpy_message_def message_size_def no_alarms_def alarm2_def)

section \<open>Change\_Alarm updates in place\<close>

text \<open>
  Claim C5, as the code has it. When an alarm on the list has the id, the new message
  fits and the new type has fewer than \<open>sizeof(alarm->type)\<close> characters,
  \<open>Change_Alarm\<close> takes the first such alarm, sets its seconds and message, sets its
  time to \<open>now\<close> plus the new seconds, and copies the new type into the buffer its
  \<open>type\<close> points to. The alarm stays at its position: the list is the old one with
  that one element replaced.
\<close>

theorem Change_Alarm_in_place:
  assumes "aid \<in> set (ids s)" and "length msg < message_size"
    and "length (chars s ty) < sizeof_type"
  shows "\<exists>i. i < length (alarm_list s)
           \<and> alarm_id (alarm_list s ! i) = aid
           \<and> (\<forall>j < i. alarm_id (alarm_list s ! j) \<noteq> aid)
           \<and> Change_Alarm now aid ty secs msg s =
               Inr ([Changing_alarm aid (chars s ty) secs msg],
                    \<lparr>alarm_list = (alarm_list s)
                       [i := (alarm_list s ! i)
                          \<lparr>seconds := secs, time := now + secs, message := msg\<rparr>],
                     chars = (chars s)(type (alarm_list s ! i) := chars s ty)\<rparr>)"
proof -
  from assms(1) obtain i where i: "find_alarm aid (alarm_list s) = Some i"
    by (cases "find_alarm aid (alarm_list s)") (auto simp: find_alarm_None ids_def)
  from assms(2) have m: "strcpy_message msg = Inr msg"
    and m': "terminate_at (message_size - Suc 0) msg = msg"
    by (simp_all add: strcpy_message_def terminate_at_def)
  from assms(3) have t: "terminate_at (sizeof_type - Suc 0) (chars s ty) = chars s ty"
    by (simp add: terminate_at_def)
  have "Change_Alarm now aid ty secs msg s =
          Inr ([Changing_alarm aid (chars s ty) secs msg],
               \<lparr>alarm_list = (alarm_list s)
                  [i := (alarm_list s ! i)
                     \<lparr>seconds := secs, time := now + secs, message := msg\<rparr>],
                chars = (chars s)(type (alarm_list s ! i) := chars s ty)\<rparr>)"
    by (simp add: Change_Alarm_def i m m' t Let_def)
  with find_alarm_Some [OF i] show ?thesis by blast
qed

theorem Change_Alarm_in_place_witness:
  "1 \<in> set (ids \<lparr>alarm_list = [alarm1, alarm2], chars = no_chars(1 := ''B'')\<rparr>)
   \<and> length ''late'' < message_size
   \<and> length ((no_chars(1 := ''B'')) 1) < sizeof_type
   \<and> Change_Alarm 0 1 1 100 ''late''
        \<lparr>alarm_list = [alarm1, alarm2], chars = no_chars(1 := ''B'')\<rparr> =
      Inr ([Changing_alarm 1 ''B'' 100 ''late''],
           \<lparr>alarm_list = [alarm1\<lparr>seconds := 100, time := 100, message := ''late''\<rparr>, alarm2],
            chars = no_chars(1 := ''B'', 0 := ''B'')\<rparr>)"
proof -
  let ?s = "\<lparr>alarm_list = [alarm1, alarm2], chars = no_chars(1 := ''B'')\<rparr>"
  have a: "1 \<in> set (ids ?s)"
    by (simp add: ids_def alarm1_def)
  have b: "length ''late'' < message_size"
    by (simp add: message_size_def)
  have c: "length (chars ?s 1) < sizeof_type"
    by (simp add: sizeof_type_def)
  from Change_Alarm_in_place [OF a b c, where now = 0 and secs = 100]
  obtain i where i: "i < length (alarm_list ?s)" "alarm_id (alarm_list ?s ! i) = 1"
      "\<forall>j < i. alarm_id (alarm_list ?s ! j) \<noteq> 1"
    and r: "Change_Alarm 0 1 1 100 ''late'' ?s =
      Inr ([Changing_alarm 1 (chars ?s 1) 100 ''late''],
           \<lparr>alarm_list = (alarm_list ?s)
              [i := (alarm_list ?s ! i)\<lparr>seconds := 100, time := 0 + 100, message := ''late''\<rparr>],
            chars = (chars ?s)(type (alarm_list ?s ! i) := chars ?s 1)\<rparr>)"
    by blast
  from i have "i = 0"
    by (cases i) (auto simp: alarm1_def)
  with r a b c show ?thesis
    by (simp add: alarm1_def)
qed

text \<open>
  Claim C5 as the specification words it fails: the list is sorted by time before the
  call, the changed alarm is due at 100 after it, and it still stands before the alarm
  due at 20.
\<close>

theorem Change_Alarm_keeps_position:
  "Change_Alarm 0 1 0 100 ''late'' \<lparr>alarm_list = [alarm1, alarm2], chars = no_chars\<rparr> =
     Inr ([Changing_alarm 1 [] 100 ''late''],
          \<lparr>alarm_list = [alarm1\<lparr>seconds := 100, time := 100, message := ''late''\<rparr>, alarm2],
           chars = no_chars\<rparr>)
   \<and> map time [alarm1\<lparr>seconds := 100, time := 100, message := ''late''\<rparr>, alarm2] = [100, 20]
   \<and> \<not> sorted (map time
          [alarm1\<lparr>seconds := 100, time := 100, message := ''late''\<rparr>, alarm2])
   \<and> sorted (map time [alarm1, alarm2])"
  by (simp add: Change_Alarm_def alarm1_def alarm2_def strcpy_message_def terminate_at_def
        message_size_def sizeof_type_def no_chars_def fun_eq_iff)

section \<open>Undefined behaviour\<close>

text \<open>
  Claim C8. A message of 64 characters is copied whole by \<open>strcpy\<close>, 65 bytes into
  the 64 of \<open>message\<close>: neither \<open>Start_Alarm\<close> nor \<open>Change_Alarm\<close> cuts or
  refuses it before the copy.
\<close>

theorem message_of_64_overruns:
  "Start_Alarm True 0 1 0 10 (replicate 64 (CHR ''m'')) (no_alarms no_chars) =
     Inl Message_overrun
   \<and> Change_Alarm 0 1 0 10 (replicate 64 (CHR ''m''))
        \<lparr>alarm_list = [alarm1, alarm2], chars = no_chars\<rparr> = Inl Message_overrun"
  by (simp add: Start_Alarm_def Change_Alarm_def strcpy_message_def message_size_def alarm1_def)

text \<open>
  Claim C9. When \<open>malloc\<close> returns NULL, \<open>Start_Alarm\<close> does not return after
  \<open>perror\<close>: it writes the fields of the alarm through the null pointer, and a run
  ends there, whatever commands follow.
\<close>

theorem failed_malloc_null_write:
  "Start_Alarm False now aid ty secs msg s = Inl Null_write
   \<and> run (Start False now aid ty secs msg # es) s = Inl Null_write"
  by (simp add: Start_Alarm_def)

end
